theory Spec2Isabelle
  imports Main "HOL-Library.Word"
begin

section \<open>Errors\<close>

text \<open>
  Go error values, by the way the code builds them:
  \<^item> \<open>External\<close>: an error handed back by a collaborator or by the operating system;
  \<^item> \<open>Errorf m\<close>: \<^verbatim>\<open>fmt.Errorf\<close> with no \<^verbatim>\<open>%w\<close> verb, an untyped error holding the message \<open>m\<close>;
  \<^item> \<open>ErrorfW m e\<close>: \<^verbatim>\<open>fmt.Errorf(m + "%w", e)\<close>, an untyped error that wraps the cause \<open>e\<close>;
  \<^item> \<open>InvalidArgument m\<close>: \<^verbatim>\<open>errors.InvalidArgument\<close> of the repository's own errors package.
\<close>

datatype error =
    External string
  | Errorf string
  | ErrorfW string error
  | InvalidArgument string

section \<open>The pre-receive secret scan (pre\_receive\_scan\_secrets.go)\<close>

subsection \<open>Data\<close>

text \<open>
  \<^verbatim>\<open>sha.SHA\<close> is declared elsewhere in the repository; only its methods \<^verbatim>\<open>String\<close> and
  \<^verbatim>\<open>IsNil\<close> are used. An id is the string it prints as.
\<close>

datatype sha = Sha (str: string)

definition String :: "sha \<Rightarrow> string" where
  "String s = str s"

text \<open>
  Modelled from the spec: \<^verbatim>\<open>types.NilSHA\<close> is declared elsewhere in the repository; the spec
  calls it the reserved all-zero value of the id format (forty hexadecimal zeros).
\<close>

definition NilSHA :: string where
  "NilSHA = ''0000000000000000000000000000000000000000''"

text \<open>
  Modelled from the spec: \<^verbatim>\<open>sha.SHA.IsNil\<close> is declared elsewhere in the repository; the spec
  writes the test as \<open>old == NilID\<close>.
\<close>

definition IsNil :: "sha \<Rightarrow> bool" where
  "IsNil s = (str s = NilSHA)"

record ReferenceUpdate =
  Ref :: string
  Old :: sha
  New :: sha

text \<open>\<^verbatim>\<open>types.GithookPreReceiveInput\<close>; of the environment only \<^verbatim>\<open>AlternateObjectDirs\<close> is read.\<close>

record GithookPreReceiveInput =
  Environment :: "string list"
  RefUpdates :: "ReferenceUpdate list"

record Repository =
  ID :: int
  GitUID :: string

record ReadParams =
  RepoUID :: string
  AlternateObjectDirs :: "string list"

record ScanSecretsParams =
  ReadParams :: ReadParams
  BaseRev :: string
  Rev :: string

text \<open>\<^verbatim>\<open>hook.Output\<close>: the message list and the optional blocking error (a \<^verbatim>\<open>*string\<close>).\<close>

record Output =
  Messages :: "string list"
  Error :: "string option"

text \<open>\<^verbatim>\<open>scanSecretsResult\<close>; the findings are opaque values of a type \<open>'f\<close>.\<close>

record 'f scanSecretsResult =
  findings :: "'f list"

definition HasResults :: "'f scanSecretsResult \<Rightarrow> bool" where
  "HasResults r = (length (findings r) > 0)"

subsection \<open>Collaborators and the record of their calls\<close>

text \<open>
  The collaborators are external. Each takes the state of the outside world \<open>'w\<close> and
  returns its answer with the new world, so an answer may differ from call to call.
  \<open>printScanSecretsFindings\<close> is a function defined elsewhere in the repository; it
  receives the pointer to the output and may rewrite it.
\<close>

record ('w, 'f) collaborators =
  RepoGet :: "'w \<Rightarrow> int \<Rightarrow> (error + bool) \<times> 'w"
  GetBaseSHAForScanningChanges ::
    "'w \<Rightarrow> Repository \<Rightarrow> string list \<Rightarrow> ReferenceUpdate list \<Rightarrow> ReferenceUpdate
       \<Rightarrow> (error + sha \<times> bool) \<times> 'w"
  ScanSecrets :: "'w \<Rightarrow> ReferenceUpdate \<Rightarrow> ScanSecretsParams \<Rightarrow> (error + 'f list) \<times> 'w"
  printScanSecretsFindings :: "Output \<Rightarrow> 'f list \<Rightarrow> Output"

text \<open>
  One entry per call to the fallback-discovery and to the scanning collaborator, with the
  arguments and the answer. The reference update of a scan call is the one whose logging
  context the call receives (\<^verbatim>\<open>ctx\<close> of the loop iteration).
\<close>

datatype 'f call =
    FallbackCall "ReferenceUpdate list" ReferenceUpdate "error + sha \<times> bool"
  | ScanCall ReferenceUpdate ScanSecretsParams "error + 'f list"

record ('w, 'f) sys =
  world :: 'w
  calls :: "'f call list"

definition init :: "'w \<Rightarrow> ('w, 'f) sys" where
  "init w = \<lparr>world = w, calls = []\<rparr>"

definition callGetBaseSHA ::
  "('w, 'f) collaborators \<Rightarrow> Repository \<Rightarrow> GithookPreReceiveInput \<Rightarrow> ReferenceUpdate
     \<Rightarrow> ('w, 'f) sys \<Rightarrow> (error + sha \<times> bool) \<times> ('w, 'f) sys" where
  "callGetBaseSHA c repo inp u s =
     (case GetBaseSHAForScanningChanges c (world s) repo (Environment inp) (RefUpdates inp) u of
        (r, w') \<Rightarrow> (r, \<lparr>world = w', calls = calls s @ [FallbackCall (RefUpdates inp) u r]\<rparr>))"

definition callScanSecrets ::
  "('w, 'f) collaborators \<Rightarrow> ReferenceUpdate \<Rightarrow> ScanSecretsParams
     \<Rightarrow> ('w, 'f) sys \<Rightarrow> (error + 'f list) \<times> ('w, 'f) sys" where
  "callScanSecrets c u p s =
     (case ScanSecrets c (world s) u p of
        (r, w') \<Rightarrow> (r, \<lparr>world = w', calls = calls s @ [ScanCall u p r]\<rparr>))"

subsection \<open>scanSecretsInternal\<close>

text \<open>
  Lines 103 to 132 of the loop body: the base revision of one reference update, with the
  memo \<^verbatim>\<open>baseRevFallBack\<close> (a \<^verbatim>\<open>*string\<close>, \<open>None\<close> for nil) before and after.
\<close>

definition baseRevOf ::
  "('w, 'f) collaborators \<Rightarrow> Repository \<Rightarrow> GithookPreReceiveInput \<Rightarrow> ReferenceUpdate
     \<Rightarrow> string option \<Rightarrow> ('w, 'f) sys \<Rightarrow> (error + string \<times> string option) \<times> ('w, 'f) sys" where
  "baseRevOf c repo inp u baseRevFallBack s =
     (if IsNil (Old u) then
        (case baseRevFallBack of
           None \<Rightarrow>
             (case callGetBaseSHA c repo inp u s of
                (Inl err, s') \<Rightarrow> (Inl (ErrorfW ''failed to get fallback sha: '' err), s')
              | (Inr (fallbackSHA, fallbackAvailable), s') \<Rightarrow>
                  (if fallbackAvailable
                   then (Inr (String fallbackSHA, Some (String fallbackSHA)), s')
                   else (Inr ('''', Some ''''), s')))
         | Some b \<Rightarrow> (Inr (b, Some b), s))
      else (Inr (String (Old u) @ ''^{commit}'', baseRevFallBack), s))"

text \<open>The loop over \<^verbatim>\<open>in.RefUpdates\<close>, with the loop's variables as arguments.\<close>

fun scanLoop ::
  "('w, 'f) collaborators \<Rightarrow> Repository \<Rightarrow> GithookPreReceiveInput \<Rightarrow> ReferenceUpdate list
     \<Rightarrow> string option \<Rightarrow> 'f scanSecretsResult \<Rightarrow> ('w, 'f) sys
     \<Rightarrow> (error + 'f scanSecretsResult) \<times> ('w, 'f) sys" where
  "scanLoop c repo inp [] baseRevFallBack res s = (Inr res, s)"
| "scanLoop c repo inp (refUpdate # rest) baseRevFallBack res s =
     (if String (New refUpdate) = NilSHA then scanLoop c repo inp rest baseRevFallBack res s
      else
        (case baseRevOf c repo inp refUpdate baseRevFallBack s of
           (Inl err, s1) \<Rightarrow> (Inl err, s1)
         | (Inr (baseRev, fb), s1) \<Rightarrow>
             (case callScanSecrets c refUpdate
                     \<lparr>ReadParams = \<lparr>RepoUID = GitUID repo,
                                     AlternateObjectDirs = Environment inp\<rparr>,
                      BaseRev = baseRev,
                      Rev = String (New refUpdate) @ ''^{commit}''\<rparr> s1 of
                (Inl err, s2) \<Rightarrow> (Inl (ErrorfW ''failed to detect secret leaks: '' err), s2)
              | (Inr fs, s2) \<Rightarrow>
                  (if length fs = 0 then scanLoop c repo inp rest fb res s2
                   else scanLoop c repo inp rest fb
                          (res\<lparr>findings := findings res @ fs\<rparr>) s2))))"

definition scanSecretsInternal ::
  "('w, 'f) collaborators \<Rightarrow> Repository \<Rightarrow> GithookPreReceiveInput \<Rightarrow> ('w, 'f) sys
     \<Rightarrow> (error + 'f scanSecretsResult) \<times> ('w, 'f) sys" where
  "scanSecretsInternal c repo inp s =
     scanLoop c repo inp (RefUpdates inp) None \<lparr>findings = []\<rparr> s"

subsection \<open>scanSecrets\<close>

text \<open>The result is the returned error (\<open>None\<close> for nil), the output and the state.\<close>

definition scanSecrets ::
  "('w, 'f) collaborators \<Rightarrow> Repository \<Rightarrow> GithookPreReceiveInput \<Rightarrow> Output \<Rightarrow> ('w, 'f) sys
     \<Rightarrow> error option \<times> Output \<times> ('w, 'f) sys" where
  "scanSecrets c repo inp output s =
     (case RepoGet c (world s) (ID repo) of
        (Inl err, w1) \<Rightarrow>
          (Some (ErrorfW ''failed to check settings whether secret scanning is enabled: '' err),
           output, s\<lparr>world := w1\<rparr>)
      | (Inr scanningEnabled, w1) \<Rightarrow>
          (if \<not> scanningEnabled then (None, output, s\<lparr>world := w1\<rparr>)
           else
             (case scanSecretsInternal c repo inp (s\<lparr>world := w1\<rparr>) of
                (Inl err, s2) \<Rightarrow>
                  (Some (ErrorfW ''failed to scan for git leaks: '' err), output, s2)
              | (Inr scanResult, s2) \<Rightarrow>
                  (if \<not> HasResults scanResult then (None, output, s2)
                   else
                     (let o1 = printScanSecretsFindings c output (findings scanResult);
                          o2 = o1\<lparr>Messages := Messages o1 @ ['''', '''']\<rparr>;
                          o3 = o2\<lparr>Error := Some ''Changes blocked by security scan results''\<rparr>
                      in (None, o3, s2))))))"

section \<open>Reading a blob (blob.go)\<close>

subsection \<open>The backend process\<close>

type_synonym byte = "8 word"

text \<open>
  \<^verbatim>\<open>CatFileBatch\<close> and \<^verbatim>\<open>ReadBatchHeaderLine\<close> are declared elsewhere in the repository.
  What \<open>GetBlob\<close> sees of them is taken as given: whether the write to \<^verbatim>\<open>stdIn\<close> fails,
  what reading the header line returns, and the bytes \<^verbatim>\<open>stdOut\<close> delivers after the
  header line until it reports the end of the stream.
\<close>

record batch =
  write_err :: "error option"
  header :: "error + string \<times> string \<times> int"
  body :: "byte list"

text \<open>The state of the backend process counts the invocations of \<^verbatim>\<open>cancel\<close>.\<close>

record proc =
  cancel_calls :: nat

definition cancel :: "proc \<Rightarrow> proc" where
  "cancel p = p\<lparr>cancel_calls := Suc (cancel_calls p)\<rparr>"

text \<open>
  Modelled from the spec: the constant \<^verbatim>\<open>GitObjectTypeBlob\<close> is declared elsewhere in
  the repository; it is the type name the header carries for a blob.
\<close>

definition GitObjectTypeBlob :: string where
  "GitObjectTypeBlob = ''blob''"

subsection \<open>The limited stream\<close>

text \<open>
  \<^verbatim>\<open>io.LimitedReader\<close> of the Go library: the underlying stream and the number of bytes
  still allowed. A read of the underlying stream with a buffer of \<open>k\<close> bytes returns the
  next bytes, at most \<open>k\<close>, and reports the end once nothing is left.
\<close>

record LimitedReader =
  lr_R :: "byte list"
  lr_N :: int

definition stream_Read :: "byte list \<Rightarrow> nat \<Rightarrow> (byte list \<times> bool) \<times> byte list" where
  "stream_Read bs k =
     (if bs = [] then (([], True), bs) else ((take k bs, False), drop k bs))"

definition LimitedReader_Read ::
  "LimitedReader \<Rightarrow> nat \<Rightarrow> (byte list \<times> bool) \<times> LimitedReader" where
  "LimitedReader_Read l k =
     (if lr_N l \<le> 0 then (([], True), l)
      else
        (let k' = (if int k > lr_N l then nat (lr_N l) else k)
         in (case stream_Read (lr_R l) k' of
               ((d, eof), bs) \<Rightarrow> ((d, eof), \<lparr>lr_R = bs, lr_N = lr_N l - int (length d)\<rparr>))))"

record limitReaderCloser =
  reader :: LimitedReader
  stop :: "proc \<Rightarrow> proc"

definition newLimitReaderCloser ::
  "byte list \<Rightarrow> int \<Rightarrow> (proc \<Rightarrow> proc) \<Rightarrow> limitReaderCloser" where
  "newLimitReaderCloser rd limit stp = \<lparr>reader = \<lparr>lr_R = rd, lr_N = limit\<rparr>, stop = stp\<rparr>"

definition Read :: "limitReaderCloser \<Rightarrow> nat \<Rightarrow> (byte list \<times> bool) \<times> limitReaderCloser" where
  "Read l k = (case LimitedReader_Read (reader l) k of (r, rd) \<Rightarrow> (r, l\<lparr>reader := rd\<rparr>))"

text \<open>\<open>Close\<close> returns the error (always nil) and the state of the process.\<close>

definition Close :: "limitReaderCloser \<Rightarrow> proc \<Rightarrow> error option \<times> proc" where
  "Close l p = (None, stop l p)"

text \<open>A caller that reads with buffers of the given sizes, one after the other.\<close>

fun reads :: "nat list \<Rightarrow> limitReaderCloser \<Rightarrow> limitReaderCloser" where
  "reads [] l = l"
| "reads (k # ks) l = reads ks (snd (Read l k))"

text \<open>
  A caller that reads with a buffer of \<open>k\<close> bytes until the stream reports its end (or
  hands back nothing), and collects what it was given.
\<close>

function ReadAll :: "nat \<Rightarrow> limitReaderCloser \<Rightarrow> byte list" where
  "ReadAll k l =
     (case Read l k of
        ((d, eof), l') \<Rightarrow> (if eof \<or> d = [] then d else d @ ReadAll k l'))"
  by pat_completeness auto
termination
  by (relation "measure (\<lambda>(k, l). length (lr_R (reader l)))")
     (auto simp: Read_def LimitedReader_Read_def stream_Read_def Let_def
           split: if_splits prod.splits)

declare ReadAll.simps [simp del]

subsection \<open>GetBlob\<close>

record BlobReader =
  SHA :: string
  Size :: int
  ContentSize :: int
  Content :: limitReaderCloser

definition quoted :: "string \<Rightarrow> string" where
  "quoted s = CHR 0x27 # s @ [CHR 0x27]"

text \<open>
  \<^verbatim>\<open>processGitErrorf\<close> is a function defined elsewhere in the repository; it is a
  parameter. The sizes are \<^verbatim>\<open>int64\<close>; they are only compared, never
  computed with, so they are integers here.
\<close>

definition GetBlob ::
  "(error \<Rightarrow> string \<Rightarrow> error) \<Rightarrow> batch \<Rightarrow> string \<Rightarrow> int \<Rightarrow> proc
     \<Rightarrow> (error + BlobReader) \<times> proc" where
  "GetBlob processGitErrorf b sha sizeLimit p =
     (case write_err b of
        Some err \<Rightarrow> (Inl (ErrorfW ''failed to write blob sha to git stdin: '' err), cancel p)
      | None \<Rightarrow>
          (case header b of
             Inl err \<Rightarrow>
               (Inl (processGitErrorf err ''failed to read cat-file batch line''), cancel p)
           | Inr (objectSHA, objectType, objectSize) \<Rightarrow>
               (if objectSHA \<noteq> sha then
                  (Inl (Errorf (''cat-file returned object sha '' @ quoted objectSHA
                                  @ '' but expected '' @ quoted sha)), cancel p)
                else if objectType \<noteq> GitObjectTypeBlob then
                  (Inl (InvalidArgument (''cat-file returned object type '' @ quoted objectType
                                  @ '' but expected '' @ quoted GitObjectTypeBlob)), cancel p)
                else
                  (let contentSize = (if sizeLimit > 0 \<and> sizeLimit < objectSize
                                      then sizeLimit else objectSize)
                   in (Inr \<lparr>SHA = sha, Size = objectSize, ContentSize = contentSize,
                             Content = newLimitReaderCloser (body b) contentSize cancel\<rparr>,
                       p)))))"

subsection \<open>Example requests\<close>

definition blobSHA :: string where
  "blobSHA = ''b6fc4c620b67d95f953a5c1c1230aaab5db5a1b0''"

definition treeSHA :: string where
  "treeSHA = ''4b825dc642cb6eb9a060e54bf8d69288fbee4904''"

text \<open>The backend answers with a blob of five bytes, followed by the separator.\<close>

definition helloBatch :: batch where
  "helloBatch = \<lparr>write_err = None, header = Inr (blobSHA, ''blob'', 5),
                  body = [104, 101, 108, 108, 111, 10]\<rparr>"

text \<open>The backend answers for another object than the one requested.\<close>

definition strayBatch :: batch where
  "strayBatch = \<lparr>write_err = None, header = Inr (treeSHA, ''blob'', 0), body = [10]\<rparr>"

text \<open>The backend answers for the requested id, which names a tree.\<close>

definition treeBatch :: batch where
  "treeBatch = \<lparr>write_err = None, header = Inr (treeSHA, ''tree'', 0), body = [10]\<rparr>"

text \<open>The pipe to the backend is closed.\<close>

definition brokenPipeBatch :: batch where
  "brokenPipeBatch = \<lparr>write_err = Some (External ''broken pipe''),
                       header = Inl (External ''EOF''), body = []\<rparr>"

definition noHeaderBatch :: batch where
  "noHeaderBatch = \<lparr>write_err = None, header = Inl (External ''EOF''), body = []\<rparr>"

text \<open>
  Modelled from the spec: \<^verbatim>\<open>processGitErrorf\<close> is defined elsewhere in the repository;
  the spec says that a transport failure surfaces as a transport error wrapping the
  underlying cause. It stands for that function wherever a concrete one is needed.
\<close>

definition wrapGitError :: "error \<Rightarrow> string \<Rightarrow> error" where
  "wrapGitError err msg = ErrorfW (msg @ '': '') err"

text \<open>The backend announces a blob of five bytes, and its stream ends after two.\<close>

definition shortBatch :: batch where
  "shortBatch = \<lparr>write_err = None, header = Inr (blobSHA, ''blob'', 5), body = [104, 101]\<rparr>"

subsection \<open>What a caller can tell from a returned error\<close>

text \<open>
  The tests a Go caller has on an error value: whether it is an error of the
  repository's errors package with the invalid-argument status (\<^verbatim>\<open>errors.As\<close>), and
  whether it wraps a cause (\<^verbatim>\<open>errors.Unwrap\<close>). \<open>kindOf\<close> is a caller that reads the
  failure kind off these tests: invalid argument is the unexpected object type, a wrapped
  cause is a transport failure, an untyped error without a cause is the protocol
  mismatch; a bare cause has no kind.
\<close>

datatype failureKind = ProtocolMismatch | UnexpectedObjectType | TransportFailure

fun kindOf :: "error \<Rightarrow> failureKind option" where
  "kindOf (InvalidArgument m) = Some UnexpectedObjectType"
| "kindOf (ErrorfW m e) = Some TransportFailure"
| "kindOf (Errorf m) = Some ProtocolMismatch"
| "kindOf (External m) = None"

text \<open>The kind of a result: that of its error, none for a success.\<close>

definition resultKind :: "error + 'a \<Rightarrow> failureKind option" where
  "resultKind r = (case r of Inl e \<Rightarrow> kindOf e | Inr v \<Rightarrow> None)"

section \<open>Properties of call records\<close>

definition isFallback :: "'f call \<Rightarrow> bool" where
  "isFallback ev = (case ev of FallbackCall all u r \<Rightarrow> True | ScanCall u p r \<Rightarrow> False)"

definition isScan :: "'f call \<Rightarrow> bool" where
  "isScan ev = (case ev of FallbackCall all u r \<Rightarrow> False | ScanCall u p r \<Rightarrow> True)"

text \<open>The reference update a call was made for.\<close>

definition callRef :: "'f call \<Rightarrow> ReferenceUpdate" where
  "callRef ev = (case ev of FallbackCall all u r \<Rightarrow> u | ScanCall u p r \<Rightarrow> u)"

text \<open>The call returned an error.\<close>

definition callFailed :: "'f call \<Rightarrow> bool" where
  "callFailed ev = (case ev of FallbackCall all u r \<Rightarrow> isl r | ScanCall u p r \<Rightarrow> isl r)"

text \<open>The base revision a fallback answer stands for: the id, or the empty string for none.\<close>

definition memoOf :: "sha \<times> bool \<Rightarrow> string" where
  "memoOf x = (if snd x then String (fst x) else '''')"

definition deleted :: "ReferenceUpdate \<Rightarrow> bool" where
  "deleted u = (String (New u) = NilSHA)"

text \<open>
  The shape of the calls of one run of the loop, read from left to right with the memo:
  a fallback call happens only for a new reference and with the memo still unset, and its
  answer is the memo from then on; a scan call is never for a deleted reference, has the
  new id peeled to a commit as its revision, and has as its base the memo for a new
  reference and the old id peeled to a commit otherwise; nothing follows a failed call.
\<close>

fun memo_trace :: "string option \<Rightarrow> 'f call list \<Rightarrow> bool" where
  "memo_trace fb [] = True"
| "memo_trace fb (FallbackCall all u r # tr) =
     (fb = None \<and> IsNil (Old u) \<and> \<not> deleted u \<and>
      (case r of Inl e \<Rightarrow> tr = [] | Inr x \<Rightarrow> memo_trace (Some (memoOf x)) tr))"
| "memo_trace fb (ScanCall u p r # tr) =
     (\<not> deleted u \<and> Rev p = String (New u) @ ''^{commit}'' \<and>
      (if IsNil (Old u) then fb = Some (BaseRev p)
       else BaseRev p = String (Old u) @ ''^{commit}'') \<and>
      (case r of Inl e \<Rightarrow> tr = [] | Inr fs \<Rightarrow> memo_trace fb tr))"

text \<open>The calls made between two states.\<close>

definition newCalls :: "('w, 'f) sys \<Rightarrow> ('w, 'f) sys \<Rightarrow> 'f call list" where
  "newCalls s s' = drop (length (calls s)) (calls s')"

section \<open>Example pushes and collaborators\<close>

definition shaA :: sha where "shaA = Sha ''aaaaaaaaaaaaaaaaaaaaaaaaaaaaaaaaaaaaaaaa''"
definition shaB :: sha where "shaB = Sha ''bbbbbbbbbbbbbbbbbbbbbbbbbbbbbbbbbbbbbbbb''"
definition shaC :: sha where "shaC = Sha ''cccccccccccccccccccccccccccccccccccccccc''"
definition shaD :: sha where "shaD = Sha ''dddddddddddddddddddddddddddddddddddddddd''"
definition shaE :: sha where "shaE = Sha ''eeeeeeeeeeeeeeeeeeeeeeeeeeeeeeeeeeeeeeee''"

definition repo0 :: Repository where
  "repo0 = \<lparr>ID = 1, GitUID = ''repo''\<rparr>"

definition uMain :: ReferenceUpdate where
  "uMain = \<lparr>Ref = ''refs/heads/main'', Old = shaA, New = shaB\<rparr>"

definition uFeature :: ReferenceUpdate where
  "uFeature = \<lparr>Ref = ''refs/heads/feature'', Old = Sha NilSHA, New = shaC\<rparr>"

definition uFeature2 :: ReferenceUpdate where
  "uFeature2 = \<lparr>Ref = ''refs/heads/feature2'', Old = Sha NilSHA, New = shaE\<rparr>"

definition uOldFeature :: ReferenceUpdate where
  "uOldFeature = \<lparr>Ref = ''refs/heads/old-feature'', Old = shaA, New = Sha NilSHA\<rparr>"

definition push :: "ReferenceUpdate list \<Rightarrow> GithookPreReceiveInput" where
  "push us = \<lparr>Environment = [''objects/incoming''], RefUpdates = us\<rparr>"

definition scanParams :: "string \<Rightarrow> string \<Rightarrow> ScanSecretsParams" where
  "scanParams b r =
     \<lparr>ReadParams = \<lparr>RepoUID = ''repo'', AlternateObjectDirs = [''objects/incoming'']\<rparr>,
      BaseRev = b, Rev = r\<rparr>"

text \<open>
  Collaborators that always answer the same: the setting, the fallback and, for each
  scan request, the findings (strings here, printed as they are).
\<close>

definition collab ::
  "(error + bool) \<Rightarrow> (error + sha \<times> bool) \<Rightarrow> (ScanSecretsParams \<Rightarrow> error + string list)
     \<Rightarrow> (unit, string) collaborators" where
  "collab st fb sc =
     \<lparr>RepoGet = (\<lambda>w i. (st, w)),
      GetBaseSHAForScanningChanges = (\<lambda>w r e all u. (fb, w)),
      ScanSecrets = (\<lambda>w u p. (sc p, w)),
      printScanSecretsFindings = (\<lambda>out fs. out\<lparr>Messages := Messages out @ fs\<rparr>)\<rparr>"

section \<open>The calls of a run\<close>

lemma call_simps [simp]:
  "isFallback (FallbackCall all u r0) = True" "isFallback (ScanCall u p r1) = False"
  "isScan (FallbackCall all u r0) = False" "isScan (ScanCall u p r1) = True"
  "callRef (FallbackCall all u r0) = u" "callRef (ScanCall u p r1) = u"
  "callFailed (FallbackCall all u r0) = isl r0" "callFailed (ScanCall u p r1) = isl r1"
  by (simp_all add: isFallback_def isScan_def callRef_def callFailed_def)

lemma callScanSecrets_calls:
  "callScanSecrets c u p s = (r, s') \<Longrightarrow> calls s' = calls s @ [ScanCall u p r]"
  by (auto simp: callScanSecrets_def split: prod.splits)

lemma callGetBaseSHA_calls:
  "callGetBaseSHA c repo inp u s = (r, s') \<Longrightarrow>
     calls s' = calls s @ [FallbackCall (RefUpdates inp) u r]"
  by (auto simp: callGetBaseSHA_def split: prod.splits)

lemma baseRevOf_Inl:
  assumes "baseRevOf c repo inp u fb s = (Inl e, s1)"
  shows "IsNil (Old u) \<and> fb = None \<and>
         (\<exists>e0. calls s1 = calls s @ [FallbackCall (RefUpdates inp) u (Inl e0)])"
  using assms
  by (auto simp: baseRevOf_def split: if_splits option.splits prod.splits sum.splits
           dest: callGetBaseSHA_calls)

lemma baseRevOf_Inr:
  assumes "baseRevOf c repo inp u fb s = (Inr (b, fb'), s1)"
  shows "(\<not> IsNil (Old u) \<and> b = String (Old u) @ ''^{commit}'' \<and> fb' = fb \<and> s1 = s)
       \<or> (IsNil (Old u) \<and> fb = Some b \<and> fb' = fb \<and> s1 = s)
       \<or> (IsNil (Old u) \<and> fb = None \<and> fb' = Some b \<and>
          (\<exists>x. b = memoOf x \<and> calls s1 = calls s @ [FallbackCall (RefUpdates inp) u (Inr x)]))"
  using assms
  by (auto simp: baseRevOf_def memoOf_def split: if_splits option.splits prod.splits sum.splits
           dest: callGetBaseSHA_calls)

lemma scanLoop_shape:
  "\<exists>evs. calls (snd (scanLoop c repo inp us fb res s)) = calls s @ evs
        \<and> memo_trace fb evs
        \<and> (isl (fst (scanLoop c repo inp us fb res s)) = (\<exists>ev\<in>set evs. callFailed ev))
        \<and> (\<not> isl (fst (scanLoop c repo inp us fb res s)) \<longrightarrow>
             map callRef (filter isScan evs) = filter (\<lambda>u. \<not> deleted u) us)
        \<and> callRef ` set evs \<subseteq> set us"
proof (induction us arbitrary: fb res s)
  case Nil
  show ?case by simp
next
  case (Cons u us)
  show ?case
  proof (cases "deleted u")
    case True
    with Cons.IH [of fb res s] show ?thesis
      by (auto simp add: deleted_def)
  next
    case live: False
    obtain x s1 where bq: "baseRevOf c repo inp u fb s = (x, s1)"
      by (cases "baseRevOf c repo inp u fb s")
    show ?thesis
    proof (cases x)
      case (Inl e)
      from baseRevOf_Inl [OF bq [unfolded Inl]] obtain e0 where
        n: "IsNil (Old u)" "fb = None"
        and cs: "calls s1 = calls s @ [FallbackCall (RefUpdates inp) u (Inl e0)]"
        by blast
      have run: "scanLoop c repo inp (u # us) fb res s = (Inl e, s1)"
        using live bq Inl by (simp add: deleted_def)
      show ?thesis
        unfolding run using n cs live
        by (intro exI [of _ "[FallbackCall (RefUpdates inp) u (Inl e0)]"])
           simp
    next
      case (Inr bf)
      obtain b fb' where bf: "bf = (b, fb')" by (cases bf)
      let ?p = "\<lparr>ReadParams = \<lparr>RepoUID = GitUID repo, AlternateObjectDirs = Environment inp\<rparr>,
                 BaseRev = b, Rev = String (New u) @ ''^{commit}''\<rparr>"
      obtain y s2 where sq: "callScanSecrets c u ?p s1 = (y, s2)"
        by (cases "callScanSecrets c u ?p s1")
      note c2 = callScanSecrets_calls [OF sq]
      from baseRevOf_Inr [OF bq [unfolded Inr bf]] obtain pre where
        c1: "calls s1 = calls s @ pre"
        and pre: "pre = [] \<and> fb' = fb \<and> (if IsNil (Old u) then fb = Some b
                                            else b = String (Old u) @ ''^{commit}'')
                \<or> (\<exists>x. pre = [FallbackCall (RefUpdates inp) u (Inr x)] \<and> fb = None
                        \<and> IsNil (Old u) \<and> fb' = Some (memoOf x) \<and> b = memoOf x)"
        by (elim disjE conjE exE) auto
      have mt: "\<And>tr. (case y of Inl e \<Rightarrow> tr = [] | Inr fs \<Rightarrow> memo_trace fb' tr) \<Longrightarrow>
                  memo_trace fb (pre @ ScanCall u ?p y # tr)"
        using pre live by (auto split: sum.splits)
      have nf: "\<not> (\<exists>ev\<in>set pre. callFailed ev)"
        using pre by auto
      have sc: "filter isScan pre = []"
        using pre by auto
      have rf: "callRef ` set pre \<subseteq> {u}"
        using pre by auto
      show ?thesis
      proof (cases y)
        case (Inl e)
        have run: "scanLoop c repo inp (u # us) fb res s =
                     (Inl (ErrorfW ''failed to detect secret leaks: '' e), s2)"
          using live bq Inr bf sq Inl by (simp add: deleted_def)
        show ?thesis
          unfolding run using c1 c2 mt [of "[]"] Inl rf
          by (intro exI [of _ "pre @ [ScanCall u ?p y]"]) auto
      next
        case (Inr fs)
        define res' where
          "res' = (if length fs = 0 then res else res\<lparr>findings := findings res @ fs\<rparr>)"
        have run: "scanLoop c repo inp (u # us) fb res s = scanLoop c repo inp us fb' res' s2"
          using live bq \<open>x = Inr bf\<close> bf sq Inr by (simp add: deleted_def res'_def)
        from Cons.IH [of fb' res' s2] obtain evs where
          e1: "calls (snd (scanLoop c repo inp us fb' res' s2)) = calls s2 @ evs"
          and e2: "memo_trace fb' evs"
          and e3: "isl (fst (scanLoop c repo inp us fb' res' s2)) = (\<exists>ev\<in>set evs. callFailed ev)"
          and e4: "\<not> isl (fst (scanLoop c repo inp us fb' res' s2)) \<longrightarrow>
                     map callRef (filter isScan evs) = filter (\<lambda>u. \<not> deleted u) us"
          and e5: "callRef ` set evs \<subseteq> set us"
          by blast
        have m: "memo_trace fb (pre @ ScanCall u ?p y # evs)"
          using mt [of evs] e2 Inr by simp
        show ?thesis
          unfolding run using c1 c2 e1 e3 e4 e5 m nf sc rf live Inr
          by (intro exI [of _ "pre @ ScanCall u ?p y # evs"])
             (auto simp add: bex_Un)
      qed
    qed
  qed
qed

lemma memo_trace_set_no_fallback:
  "memo_trace (Some b) tr \<Longrightarrow> ev \<in> set tr \<Longrightarrow> \<not> isFallback ev"
proof (induction tr)
  case Nil
  then show ?case by simp
next
  case (Cons a tr)
  then show ?case
    by (cases a) (auto split: sum.splits)
qed

lemma memo_trace_fallback_count:
  "memo_trace fb tr \<Longrightarrow> length (filter isFallback tr) \<le> (if fb = None then 1 else 0)"
proof (induction tr arbitrary: fb)
  case Nil
  then show ?case by simp
next
  case (Cons a tr)
  show ?case
  proof (cases a)
    case (FallbackCall all u r)
    with Cons.prems Cons.IH [of "Some (memoOf (projr r))"] show ?thesis
      by (cases r) auto
  next
    case (ScanCall u p r)
    with Cons.prems Cons.IH [of fb] show ?thesis
      by (cases r) auto
  qed
qed

lemma memo_trace_set_base:
  "memo_trace (Some b) tr \<Longrightarrow> ScanCall u p r \<in> set tr \<Longrightarrow> IsNil (Old u) \<Longrightarrow> BaseRev p = b"
proof (induction tr)
  case Nil
  then show ?case by simp
next
  case (Cons a tr)
  then show ?case
    by (cases a) (auto split: sum.splits if_splits)
qed

lemma memo_trace_reuse:
  "memo_trace fb tr \<Longrightarrow> FallbackCall all u0 r0 \<in> set tr \<Longrightarrow> ScanCall u p r \<in> set tr \<Longrightarrow>
     IsNil (Old u) \<Longrightarrow> \<exists>x. r0 = Inr x \<and> BaseRev p = memoOf x"
proof (induction tr arbitrary: fb)
  case Nil
  then show ?case by simp
next
  case (Cons a tr)
  show ?case
  proof (cases a)
    case fc: (FallbackCall all' u' r')
    show ?thesis
    proof (cases r')
      case (Inl e)
      with fc Cons.prems show ?thesis by auto
    next
      case (Inr x)
      with fc Cons.prems have mt: "memo_trace (Some (memoOf x)) tr" by simp
      from Cons.prems(3) fc have sc: "ScanCall u p r \<in> set tr" by simp
      have "FallbackCall all u0 r0 \<notin> set tr"
        using memo_trace_set_no_fallback [OF mt, of "FallbackCall all u0 r0"] by auto
      with Cons.prems(2) have "FallbackCall all u0 r0 = a" by simp
      with fc Inr have "r0 = Inr x" by simp
      with memo_trace_set_base [OF mt sc Cons.prems(4)] show ?thesis by simp
    qed
  next
    case sc: (ScanCall u' p' r')
    show ?thesis
    proof (cases r')
      case (Inl e)
      with sc Cons.prems show ?thesis by auto
    next
      case (Inr fs)
      with sc Cons.prems have mt: "memo_trace fb tr" by simp
      from Cons.prems(2) sc have fc: "FallbackCall all u0 r0 \<in> set tr" by simp
      show ?thesis
      proof (cases "ScanCall u p r \<in> set tr")
        case True
        from Cons.IH [OF mt fc True Cons.prems(4)] show ?thesis .
      next
        case False
        with Cons.prems(3) sc have "u' = u" "p' = p" by auto
        with Cons.prems(1,4) sc have "fb = Some (BaseRev p)" by simp
        with mt memo_trace_set_no_fallback [of "BaseRev p" tr, OF _ fc] show ?thesis by simp
      qed
    qed
  qed
qed

lemma memo_trace_needs_fallback:
  "memo_trace None tr \<Longrightarrow> ScanCall u p r \<in> set tr \<Longrightarrow> IsNil (Old u) \<Longrightarrow>
     \<exists>all u0 r0. FallbackCall all u0 r0 \<in> set tr"
proof (induction tr)
  case Nil
  then show ?case by simp
next
  case (Cons a tr)
  show ?case
  proof (cases a)
    case (FallbackCall all' u' r')
    then show ?thesis by auto
  next
    case sc: (ScanCall u' p' r')
    with Cons.prems have "ScanCall u p r \<in> set tr" "memo_trace None tr"
      by (auto split: sum.splits if_splits)
    with Cons.IH Cons.prems(3) show ?thesis by auto
  qed
qed

lemma memo_trace_live:
  "memo_trace fb tr \<Longrightarrow> ev \<in> set tr \<Longrightarrow> \<not> deleted (callRef ev)"
proof (induction tr arbitrary: fb)
  case Nil
  then show ?case by simp
next
  case (Cons a tr)
  then show ?case
    by (cases a) (auto split: sum.splits)
qed

lemma memo_trace_range:
  "memo_trace fb tr \<Longrightarrow> ScanCall u p r \<in> set tr \<Longrightarrow>
     Rev p = String (New u) @ ''^{commit}'' \<and>
     (\<not> IsNil (Old u) \<longrightarrow> BaseRev p = String (Old u) @ ''^{commit}'')"
proof (induction tr arbitrary: fb)
  case Nil
  then show ?case by simp
next
  case (Cons a tr)
  then show ?case
    by (cases a) (auto split: sum.splits if_splits)
qed

lemma memo_trace_stops:
  "memo_trace fb tr \<Longrightarrow> tr = pre @ ev # post \<Longrightarrow> callFailed ev \<Longrightarrow> post = []"
proof (induction pre arbitrary: fb tr)
  case Nil
  then show ?case
    by (cases ev) (auto split: sum.splits)
next
  case (Cons a pre)
  from Cons.prems(2) have tr: "tr = a # (pre @ ev # post)" by simp
  show ?case
  proof (cases a)
    case (FallbackCall all u r)
    with Cons.prems(1) tr obtain x where "memo_trace (Some (memoOf x)) (pre @ ev # post)"
      by (cases r) auto
    from Cons.IH [OF this refl Cons.prems(3)] show ?thesis .
  next
    case (ScanCall u p r)
    with Cons.prems(1) tr have "memo_trace fb (pre @ ev # post)"
      by (cases r) auto
    from Cons.IH [OF this refl Cons.prems(3)] show ?thesis .
  qed
qed

lemma scanSecretsInternal_shape:
  "memo_trace None (calls (snd (scanSecretsInternal c repo inp (init w))))
   \<and> (isl (fst (scanSecretsInternal c repo inp (init w))) =
        (\<exists>ev\<in>set (calls (snd (scanSecretsInternal c repo inp (init w)))). callFailed ev))
   \<and> (\<not> isl (fst (scanSecretsInternal c repo inp (init w))) \<longrightarrow>
        map callRef (filter isScan (calls (snd (scanSecretsInternal c repo inp (init w)))))
          = filter (\<lambda>u. \<not> deleted u) (RefUpdates inp))
   \<and> callRef ` set (calls (snd (scanSecretsInternal c repo inp (init w)))) \<subseteq> set (RefUpdates inp)"
  using scanLoop_shape [of c repo inp "RefUpdates inp" None "\<lparr>findings = []\<rparr>" "init w"]
  unfolding scanSecretsInternal_def by (auto simp: init_def)

lemmas ex_defs = scanSecretsInternal_def init_def push_def collab_def uMain_def uFeature_def
  uFeature2_def uOldFeature_def baseRevOf_def callScanSecrets_def callGetBaseSHA_def
  IsNil_def String_def NilSHA_def shaA_def shaB_def shaC_def shaD_def shaE_def repo0_def
  scanParams_def memoOf_def deleted_def

section \<open>Claims about the scan gate\<close>

text \<open>
  C1. During one run of \<open>scanSecretsInternal\<close> the fallback-discovery collaborator is
  called at most once, however many reference updates of the push have a nil old id, and
  every scan for such a newly created reference has as its base the memo of that one
  fallback answer: the id it resolved to, or the empty string when it resolved to none.
\<close>

theorem fallback_discovery_at_most_once:
  "let tr = calls (snd (scanSecretsInternal c repo inp (init w))) in
     length (filter isFallback tr) \<le> 1 \<and>
     (\<forall>u p r. ScanCall u p r \<in> set tr \<and> IsNil (Old u) \<longrightarrow>
        (\<exists>all u0 x. FallbackCall all u0 (Inr x) \<in> set tr \<and> BaseRev p = memoOf x))"
proof -
  define tr where "tr = calls (snd (scanSecretsInternal c repo inp (init w)))"
  have mt: "memo_trace None tr"
    unfolding tr_def using scanSecretsInternal_shape [of c repo inp w] by blast
  have once: "length (filter isFallback tr) \<le> 1"
    using memo_trace_fallback_count [OF mt] by simp
  have reuse: "\<exists>all u0 x. FallbackCall all u0 (Inr x) \<in> set tr \<and> BaseRev p = memoOf x"
    if sc: "ScanCall u p r \<in> set tr" and new: "IsNil (Old u)" for u p r
  proof -
    from memo_trace_needs_fallback [OF mt sc new] obtain all u0 r0
      where fc: "FallbackCall all u0 r0 \<in> set tr" by blast
    from memo_trace_reuse [OF mt fc sc new] obtain x
      where "r0 = Inr x" "BaseRev p = memoOf x" by blast
    with fc show ?thesis by blast
  qed
  from once reuse show ?thesis
    unfolding tr_def [symmetric] Let_def by blast
qed

theorem fallback_discovery_at_most_once_witness:
  "ScanCall uFeature2 (scanParams (String shaD) (String shaE @ ''^{commit}'')) (Inr [])
     \<in> set (calls (snd (scanSecretsInternal
                (collab (Inr True) (Inr (shaD, True)) (\<lambda>p. Inr [])) repo0
                (push [uFeature, uMain, uOldFeature, uFeature2]) (init ()))))
   \<and> IsNil (Old uFeature2)
   \<and> FallbackCall [uFeature, uMain, uOldFeature, uFeature2] uFeature (Inr (shaD, True))
     \<in> set (calls (snd (scanSecretsInternal
                (collab (Inr True) (Inr (shaD, True)) (\<lambda>p. Inr [])) repo0
                (push [uFeature, uMain, uOldFeature, uFeature2]) (init ()))))
   \<and> BaseRev (scanParams (String shaD) (String shaE @ ''^{commit}'')) = memoOf (shaD, True)
   \<and> length (filter isFallback (calls (snd (scanSecretsInternal
                (collab (Inr True) (Inr (shaD, True)) (\<lambda>p. Inr [])) repo0
                (push [uFeature, uMain, uOldFeature, uFeature2]) (init ()))))) = 1
   \<and> calls (snd (scanSecretsInternal
                (collab (Inr True) (Inr (shaD, False)) (\<lambda>p. Inr [])) repo0
                (push [uFeature, uFeature2]) (init ())))
     = [FallbackCall [uFeature, uFeature2] uFeature (Inr (shaD, False)),
        ScanCall uFeature (scanParams [] (String shaC @ ''^{commit}'')) (Inr []),
        ScanCall uFeature2 (scanParams [] (String shaE @ ''^{commit}'')) (Inr [])]
   \<and> memoOf (shaD, False) = []"
  using fallback_discovery_at_most_once
          [of "collab (Inr True) (Inr (shaD, True)) (\<lambda>p. Inr [])" repo0
              "push [uFeature, uMain, uOldFeature, uFeature2]" "()"]
        fallback_discovery_at_most_once
          [of "collab (Inr True) (Inr (shaD, False)) (\<lambda>p. Inr [])" repo0
              "push [uFeature, uFeature2]" "()"]
  by (simp add: ex_defs)

text \<open>
  C2, as amended. Every scan call of a run has as its revision the new id of its reference
  update followed by \<^verbatim>\<open>^{commit}\<close>; for an update whose old id is not nil its base is
  the old id followed by \<^verbatim>\<open>^{commit}\<close>; for a newly created reference whose fallback
  resolved to a commit \<open>D\<close> its base is the id \<open>D\<close> itself. When the run returns without
  error, the scan calls are those of the updates that are not deletions, one each and in
  the order of the push.
\<close>

theorem scan_range_of_update:
  "let run = scanSecretsInternal c repo inp (init w); tr = calls (snd run) in
     (\<forall>u p r. ScanCall u p r \<in> set tr \<longrightarrow>
        Rev p = String (New u) @ ''^{commit}'' \<and>
        (\<not> IsNil (Old u) \<longrightarrow> BaseRev p = String (Old u) @ ''^{commit}'') \<and>
        (IsNil (Old u) \<longrightarrow>
           (\<forall>all u0 D. FallbackCall all u0 (Inr (D, True)) \<in> set tr \<longrightarrow> BaseRev p = String D)))
     \<and> (\<not> isl (fst run) \<longrightarrow>
          map callRef (filter isScan tr) = filter (\<lambda>u. String (New u) \<noteq> NilSHA) (RefUpdates inp))"
proof -
  define tr where "tr = calls (snd (scanSecretsInternal c repo inp (init w)))"
  note shape = scanSecretsInternal_shape [of c repo inp w, folded tr_def]
  from shape have mt: "memo_trace None tr" by blast
  have one: "Rev p = String (New u) @ ''^{commit}'' \<and>
        (\<not> IsNil (Old u) \<longrightarrow> BaseRev p = String (Old u) @ ''^{commit}'') \<and>
        (IsNil (Old u) \<longrightarrow>
           (\<forall>all u0 D. FallbackCall all u0 (Inr (D, True)) \<in> set tr \<longrightarrow> BaseRev p = String D))"
    if sc: "ScanCall u p r \<in> set tr" for u p r
  proof -
    have "BaseRev p = String D"
      if new: "IsNil (Old u)" and fc: "FallbackCall all u0 (Inr (D, True)) \<in> set tr"
      for all u0 D
      using memo_trace_reuse [OF mt fc sc new] by (simp add: memoOf_def)
    with memo_trace_range [OF mt sc] show ?thesis by blast
  qed
  have all: "\<not> isl (fst (scanSecretsInternal c repo inp (init w))) \<longrightarrow>
          map callRef (filter isScan tr) = filter (\<lambda>u. String (New u) \<noteq> NilSHA) (RefUpdates inp)"
    using shape by (simp add: deleted_def)
  from one all show ?thesis
    unfolding Let_def tr_def [symmetric] by blast
qed

theorem scan_range_of_update_witness:
  "ScanCall uFeature (scanParams (String shaD) (String shaC @ ''^{commit}'')) (Inr [])
     \<in> set (calls (snd (scanSecretsInternal
                (collab (Inr True) (Inr (shaD, True)) (\<lambda>p. Inr [])) repo0
                (push [uMain, uFeature]) (init ()))))
   \<and> IsNil (Old uFeature)
   \<and> FallbackCall [uMain, uFeature] uFeature (Inr (shaD, True))
     \<in> set (calls (snd (scanSecretsInternal
                (collab (Inr True) (Inr (shaD, True)) (\<lambda>p. Inr [])) repo0
                (push [uMain, uFeature]) (init ()))))
   \<and> BaseRev (scanParams (String shaD) (String shaC @ ''^{commit}'')) = String shaD
   \<and> Rev (scanParams (String shaD) (String shaC @ ''^{commit}'')) = String (New uFeature) @ ''^{commit}''
   \<and> ScanCall uMain (scanParams (String shaA @ ''^{commit}'') (String shaB @ ''^{commit}'')) (Inr [])
     \<in> set (calls (snd (scanSecretsInternal
                (collab (Inr True) (Inr (shaD, True)) (\<lambda>p. Inr [])) repo0
                (push [uMain, uFeature]) (init ()))))
   \<and> \<not> IsNil (Old uMain)
   \<and> \<not> isl (fst (scanSecretsInternal
                (collab (Inr True) (Inr (shaD, True)) (\<lambda>p. Inr [])) repo0
                (push [uMain, uFeature]) (init ())))
   \<and> map callRef (filter isScan (calls (snd (scanSecretsInternal
                (collab (Inr True) (Inr (shaD, True)) (\<lambda>p. Inr [])) repo0
                (push [uMain, uFeature]) (init ()))))) = [uMain, uFeature]"
  using scan_range_of_update
          [of "collab (Inr True) (Inr (shaD, True)) (\<lambda>p. Inr [])" repo0
              "push [uMain, uFeature]" "()"]
  by (simp add: ex_defs)

text \<open>
  C2 as stated fails: updating \<^verbatim>\<open>main\<close> from \<open>A\<close> to \<open>B\<close> makes one scan call, whose
  base is \<open>A\<close> followed by \<^verbatim>\<open>^{commit}\<close> and whose revision is \<open>B\<close> followed by
  \<^verbatim>\<open>^{commit}\<close>, not the two ids.
\<close>

theorem scan_base_is_not_old_id_counterexample:
  "calls (snd (scanSecretsInternal (collab (Inr True) (Inr (shaD, True)) (\<lambda>p. Inr [])) repo0
                 (push [uMain]) (init ())))
     = [ScanCall uMain
          (scanParams ''aaaaaaaaaaaaaaaaaaaaaaaaaaaaaaaaaaaaaaaa^{commit}''
                      ''bbbbbbbbbbbbbbbbbbbbbbbbbbbbbbbbbbbbbbbb^{commit}'') (Inr [])]
   \<and> String (Old uMain) \<noteq> NilSHA
   \<and> String (Old uMain) = ''aaaaaaaaaaaaaaaaaaaaaaaaaaaaaaaaaaaaaaaa''
   \<and> String (New uMain) = ''bbbbbbbbbbbbbbbbbbbbbbbbbbbbbbbbbbbbbbbb''
   \<and> BaseRev (scanParams ''aaaaaaaaaaaaaaaaaaaaaaaaaaaaaaaaaaaaaaaa^{commit}''
                          ''bbbbbbbbbbbbbbbbbbbbbbbbbbbbbbbbbbbbbbbb^{commit}'')
       \<noteq> String (Old uMain)
   \<and> Rev (scanParams ''aaaaaaaaaaaaaaaaaaaaaaaaaaaaaaaaaaaaaaaa^{commit}''
                      ''bbbbbbbbbbbbbbbbbbbbbbbbbbbbbbbbbbbbbbbb^{commit}'')
       \<noteq> String (New uMain)"
  by (simp add: ex_defs)

text \<open>
  C5. No call of a run, scan or fallback, is made for a reference update whose new id is
  the nil id; a push of deletions only makes no call at all.
\<close>

theorem deletions_are_never_scanned:
  "let tr = calls (snd (scanSecretsInternal c repo inp (init w))) in
     (\<forall>ev\<in>set tr. String (New (callRef ev)) \<noteq> NilSHA) \<and>
     ((\<forall>u\<in>set (RefUpdates inp). String (New u) = NilSHA) \<longrightarrow> tr = [])"
proof -
  define tr where "tr = calls (snd (scanSecretsInternal c repo inp (init w)))"
  note shape = scanSecretsInternal_shape [of c repo inp w, folded tr_def]
  from shape have mt: "memo_trace None tr" and sub: "callRef ` set tr \<subseteq> set (RefUpdates inp)"
    by blast+
  have live: "\<forall>ev\<in>set tr. String (New (callRef ev)) \<noteq> NilSHA"
    using memo_trace_live [OF mt] by (simp add: deleted_def)
  have "tr = []" if "\<forall>u\<in>set (RefUpdates inp). String (New u) = NilSHA"
  proof (cases tr)
    case Nil
    then show ?thesis .
  next
    case (Cons ev tr')
    then have "ev \<in> set tr" by simp
    with live sub that show ?thesis by blast
  qed
  with live show ?thesis
    unfolding Let_def tr_def [symmetric] by blast
qed

theorem deletions_are_never_scanned_witness:
  "String (New uOldFeature) = NilSHA
   \<and> calls (snd (scanSecretsInternal (collab (Inr True) (Inr (shaD, True)) (\<lambda>p. Inr [''leak'']))
                   repo0 (push [uOldFeature]) (init ()))) = []
   \<and> ScanCall uMain (scanParams (String shaA @ ''^{commit}'') (String shaB @ ''^{commit}'')) (Inr [])
       \<in> set (calls (snd (scanSecretsInternal (collab (Inr True) (Inr (shaD, True)) (\<lambda>p. Inr []))
                   repo0 (push [uOldFeature, uMain]) (init ()))))
   \<and> String (New (callRef (ScanCall uMain
         (scanParams (String shaA @ ''^{commit}'') (String shaB @ ''^{commit}'')) (Inr [])))) \<noteq> NilSHA"
  using deletions_are_never_scanned
          [of "collab (Inr True) (Inr (shaD, True)) (\<lambda>p. Inr [''leak''])" repo0
              "push [uOldFeature]" "()"]
        deletions_are_never_scanned
          [of "collab (Inr True) (Inr (shaD, True)) (\<lambda>p. Inr [])" repo0
              "push [uOldFeature, uMain]" "()"]
  by (simp add: ex_defs)

text \<open>
  C6. If the setting resolves to false, \<open>scanSecrets\<close> returns no error, makes no call to
  the fallback-discovery or the scanning collaborator, and hands the output back as it was.
\<close>

theorem scanSecrets_disabled:
  "fst (RepoGet c (world s) (ID repo)) = Inr False \<Longrightarrow>
     (case scanSecrets c repo inp out s of
        (err, out', s') \<Rightarrow> err = None \<and> out' = out \<and> calls s' = calls s)"
  by (cases "RepoGet c (world s) (ID repo)") (simp add: scanSecrets_def)

theorem scanSecrets_disabled_witness:
  "fst (RepoGet (collab (Inr False) (Inr (shaD, True)) (\<lambda>p. Inr [''leak''])) (world (init ())) (ID repo0))
     = Inr False
   \<and> scanSecrets (collab (Inr False) (Inr (shaD, True)) (\<lambda>p. Inr [''leak''])) repo0
        (push [uMain, uFeature]) \<lparr>Messages = [''hello''], Error = None\<rparr> (init ())
     = (None, \<lparr>Messages = [''hello''], Error = None\<rparr>, init ())"
  using scanSecrets_disabled
          [where c = "collab (Inr False) (Inr (shaD, True)) (\<lambda>p. Inr [''leak''])"
             and s = "init ()" and repo = repo0 and inp = "push [uMain, uFeature]"
             and out = "\<lparr>Messages = [''hello''], Error = None\<rparr>"]
  by (simp add: scanSecrets_def ex_defs)

text \<open>
  C3. Whenever scanning is enabled and the scan returns at least one finding,
  \<open>scanSecrets\<close> returns no error, and the output is what \<open>printScanSecretsFindings\<close>
  made of it with two empty messages appended and the error field set to the fixed text.
\<close>

theorem scanSecrets_blocks_on_findings:
  assumes "RepoGet c (world s) (ID repo) = (Inr True, w1)"
    and "scanSecretsInternal c repo inp (s\<lparr>world := w1\<rparr>) = (Inr scanResult, s2)"
    and "findings scanResult \<noteq> []"
  shows "scanSecrets c repo inp out s =
           (None,
            \<lparr>Messages = Messages (printScanSecretsFindings c out (findings scanResult))
                          @ ['''', ''''],
             Error = Some ''Changes blocked by security scan results''\<rparr>,
            s2)"
  using assms by (simp add: scanSecrets_def HasResults_def Let_def)

theorem scanSecrets_blocks_on_findings_witness:
  "RepoGet (collab (Inr True) (Inr (shaD, True)) (\<lambda>p. Inr [''leak''])) (world (init ())) (ID repo0)
     = (Inr True, ())
   \<and> scanSecretsInternal (collab (Inr True) (Inr (shaD, True)) (\<lambda>p. Inr [''leak''])) repo0
        (push [uMain]) ((init ())\<lparr>world := ()\<rparr>)
     = (Inr \<lparr>findings = [''leak'']\<rparr>,
        \<lparr>world = (), calls = [ScanCall uMain
           (scanParams (String shaA @ ''^{commit}'') (String shaB @ ''^{commit}''))
           (Inr [''leak''])]\<rparr>)
   \<and> findings \<lparr>findings = [''leak'']\<rparr> \<noteq> []
   \<and> scanSecrets (collab (Inr True) (Inr (shaD, True)) (\<lambda>p. Inr [''leak''])) repo0
        (push [uMain]) \<lparr>Messages = [''hello''], Error = None\<rparr> (init ())
     = (None,
        \<lparr>Messages = [''hello'', ''leak'', '''', ''''],
         Error = Some ''Changes blocked by security scan results''\<rparr>,
        \<lparr>world = (), calls = [ScanCall uMain
           (scanParams (String shaA @ ''^{commit}'') (String shaB @ ''^{commit}''))
           (Inr [''leak''])]\<rparr>)"
proof -
  have a: "RepoGet (collab (Inr True) (Inr (shaD, True)) (\<lambda>p. Inr [''leak''])) (world (init ())) (ID repo0)
     = (Inr True, ())"
    by (simp add: collab_def)
  have b: "scanSecretsInternal (collab (Inr True) (Inr (shaD, True)) (\<lambda>p. Inr [''leak''])) repo0
        (push [uMain]) ((init ())\<lparr>world := ()\<rparr>)
     = (Inr \<lparr>findings = [''leak'']\<rparr>,
        \<lparr>world = (), calls = [ScanCall uMain
           (scanParams (String shaA @ ''^{commit}'') (String shaB @ ''^{commit}''))
           (Inr [''leak''])]\<rparr>)"
    by (simp add: ex_defs)
  have c: "findings \<lparr>findings = [''leak'']\<rparr> \<noteq> []"
    by simp
  from scanSecrets_blocks_on_findings [OF a b c, of "\<lparr>Messages = [''hello''], Error = None\<rparr>"]
  show ?thesis using a b by (simp add: collab_def)
qed

lemma scanSecrets_failed_calls:
  "case scanSecrets c repo inp out s of
     (err, out', s') \<Rightarrow>
       (\<forall>e. fst (RepoGet c (world s) (ID repo)) = Inl e \<longrightarrow>
          err = Some (ErrorfW ''failed to check settings whether secret scanning is enabled: '' e)
          \<and> calls s' = calls s \<and> out' = out)
       \<and> ((\<exists>ev\<in>set (newCalls s s'). callFailed ev) \<longrightarrow> err \<noteq> None \<and> out' = out)"
proof -
  obtain st w1 where rg: "RepoGet c (world s) (ID repo) = (st, w1)"
    by (cases "RepoGet c (world s) (ID repo)")
  show ?thesis
  proof (cases st)
    case (Inl e)
    with rg show ?thesis
      by (simp add: scanSecrets_def newCalls_def)
  next
    case (Inr enabled)
    show ?thesis
    proof (cases enabled)
      case False
      with rg Inr show ?thesis
        by (simp add: scanSecrets_def newCalls_def)
    next
      case True
      let ?s1 = "s\<lparr>world := w1\<rparr>"
      obtain r s2 where si: "scanSecretsInternal c repo inp ?s1 = (r, s2)"
        by (cases "scanSecretsInternal c repo inp ?s1")
      from scanLoop_shape [of c repo inp "RefUpdates inp" None "\<lparr>findings = []\<rparr>" ?s1] si
      obtain evs where cs: "calls s2 = calls s @ evs"
        and fl: "isl r = (\<exists>ev\<in>set evs. callFailed ev)"
        unfolding scanSecretsInternal_def by auto
      from cs have nc: "newCalls s s2 = evs"
        by (simp add: newCalls_def)
      show ?thesis
      proof (cases r)
        case (Inl e)
        with rg Inr True si show ?thesis
          by (simp add: scanSecrets_def)
      next
        case r: (Inr scanResult)
        with fl have "\<not> (\<exists>ev\<in>set evs. callFailed ev)" by simp
        with rg Inr True si r nc show ?thesis
          by (simp add: scanSecrets_def Let_def)
      qed
    qed
  qed
qed

lemma scanSecrets_run_calls:
  "\<exists>evs. newCalls s (snd (snd (scanSecrets c repo inp out s))) = evs \<and> memo_trace None evs
         \<and> ((\<exists>ev\<in>set evs. callFailed ev) \<longrightarrow>
              (\<exists>e. fst (scanSecrets c repo inp out s)
                      = Some (ErrorfW ''failed to scan for git leaks: '' e)))"
proof -
  obtain st w1 where rg: "RepoGet c (world s) (ID repo) = (st, w1)"
    by (cases "RepoGet c (world s) (ID repo)")
  show ?thesis
  proof (cases "st = Inr True")
    case False
    with rg have "calls (snd (snd (scanSecrets c repo inp out s))) = calls s"
      by (cases st) (auto simp: scanSecrets_def)
    then show ?thesis
      by (simp add: newCalls_def)
  next
    case True
    let ?s1 = "s\<lparr>world := w1\<rparr>"
    obtain r s2 where si: "scanSecretsInternal c repo inp ?s1 = (r, s2)"
      by (cases "scanSecretsInternal c repo inp ?s1")
    from scanLoop_shape [of c repo inp "RefUpdates inp" None "\<lparr>findings = []\<rparr>" ?s1] si
    obtain evs where cs: "calls s2 = calls s @ evs"
      and mt: "memo_trace None evs"
      and fl: "isl r = (\<exists>ev\<in>set evs. callFailed ev)"
      unfolding scanSecretsInternal_def by auto
    have st2: "snd (snd (scanSecrets c repo inp out s)) = s2"
      using rg True si by (cases r) (auto simp: scanSecrets_def Let_def)
    have nc: "newCalls s (snd (snd (scanSecrets c repo inp out s))) = evs"
      using cs st2 by (simp add: newCalls_def)
    have "\<exists>e. fst (scanSecrets c repo inp out s)
                 = Some (ErrorfW ''failed to scan for git leaks: '' e)"
      if "\<exists>ev\<in>set evs. callFailed ev"
    proof -
      from that fl obtain e where "r = Inl e" by (cases r) auto
      with rg True si show ?thesis by (simp add: scanSecrets_def)
    qed
    with nc mt show ?thesis by blast
  qed
qed

lemma scanSecrets_aborts:
  "case scanSecrets c repo inp out s of
     (err, out', s') \<Rightarrow>
       (\<forall>e. fst (RepoGet c (world s) (ID repo)) = Inl e \<longrightarrow>
          err = Some (ErrorfW ''failed to check settings whether secret scanning is enabled: '' e)
          \<and> calls s' = calls s \<and> out' = out)
       \<and> ((\<exists>ev\<in>set (newCalls s s'). callFailed ev) \<longrightarrow>
            err \<noteq> None \<and> out' = out
            \<and> (\<exists>e. err = Some (ErrorfW ''failed to scan for git leaks: '' e)))
       \<and> (\<forall>pre ev post. newCalls s s' = pre @ ev # post \<and> callFailed ev \<longrightarrow> post = [])"
proof -
  from scanSecrets_run_calls [of s c repo inp out]
  have mt: "memo_trace None (newCalls s (snd (snd (scanSecrets c repo inp out s))))"
    and wr: "(\<exists>ev\<in>set (newCalls s (snd (snd (scanSecrets c repo inp out s)))). callFailed ev) \<longrightarrow>
              (\<exists>e. fst (scanSecrets c repo inp out s)
                      = Some (ErrorfW ''failed to scan for git leaks: '' e))"
    by auto
  have stop: "post = []"
    if "newCalls s (snd (snd (scanSecrets c repo inp out s))) = pre @ ev # post" "callFailed ev"
    for pre ev post
    using memo_trace_stops [OF mt that] .
  from scanSecrets_failed_calls [where c = c and repo = repo and inp = inp and out = out and s = s]
       wr stop
  show ?thesis
    by (cases "scanSecrets c repo inp out s") (simp, blast)
qed

text \<open>
  C7. If the lookup of the setting fails, \<open>scanSecrets\<close> returns that error wrapped and
  makes no fallback or scan call; and if any fallback or scan call of the run fails, the
  evaluation aborts there: no call follows the failed one, \<open>scanSecrets\<close> returns the
  wrapped error, and the output is left as it was.
\<close>

theorem scanSecrets_failures_abort:
  "case scanSecrets c repo inp out s of
     (err, out', s') \<Rightarrow>
       (\<forall>e. fst (RepoGet c (world s) (ID repo)) = Inl e \<longrightarrow>
          err = Some (ErrorfW ''failed to check settings whether secret scanning is enabled: '' e)
          \<and> calls s' = calls s \<and> out' = out)
       \<and> ((\<exists>ev\<in>set (newCalls s s'). callFailed ev) \<longrightarrow>
            err \<noteq> None \<and> out' = out
            \<and> (\<exists>e. err = Some (ErrorfW ''failed to scan for git leaks: '' e)))
       \<and> (\<forall>pre ev post. newCalls s s' = pre @ ev # post \<and> callFailed ev \<longrightarrow> post = [])"
  by (rule scanSecrets_aborts)

theorem scanSecrets_failures_abort_witness:
  "fst (RepoGet (collab (Inl (External ''settings store down'')) (Inr (shaD, True)) (\<lambda>p. Inr [''leak'']))
          (world (init ())) (ID repo0)) = Inl (External ''settings store down'')
   \<and> scanSecrets (collab (Inl (External ''settings store down'')) (Inr (shaD, True)) (\<lambda>p. Inr [''leak'']))
        repo0 (push [uMain, uFeature]) \<lparr>Messages = [''hello''], Error = None\<rparr> (init ())
     = (Some (ErrorfW ''failed to check settings whether secret scanning is enabled: ''
                (External ''settings store down'')),
        \<lparr>Messages = [''hello''], Error = None\<rparr>, init ())
   \<and> callFailed (ScanCall uMain
          (scanParams (String shaA @ ''^{commit}'') (String shaB @ ''^{commit}''))
          (Inl (External ''git died'')))
   \<and> newCalls (init ()) (snd (snd (scanSecrets
              (collab (Inr True) (Inr (shaD, True)) (\<lambda>p. Inl (External ''git died'')))
              repo0 (push [uMain, uFeature]) \<lparr>Messages = [''hello''], Error = None\<rparr> (init ()))))
     = [] @ ScanCall uMain (scanParams (String shaA @ ''^{commit}'') (String shaB @ ''^{commit}''))
              (Inl (External ''git died'')) # []
   \<and> fst (scanSecrets (collab (Inr True) (Inr (shaD, True)) (\<lambda>p. Inl (External ''git died'')))
              repo0 (push [uMain, uFeature]) \<lparr>Messages = [''hello''], Error = None\<rparr> (init ()))
     = Some (ErrorfW ''failed to scan for git leaks: ''
              (ErrorfW ''failed to detect secret leaks: '' (External ''git died'')))
   \<and> fst (snd (scanSecrets (collab (Inr True) (Inr (shaD, True)) (\<lambda>p. Inl (External ''git died'')))
              repo0 (push [uMain, uFeature]) \<lparr>Messages = [''hello''], Error = None\<rparr> (init ())))
     = \<lparr>Messages = [''hello''], Error = None\<rparr>
   \<and> callFailed (FallbackCall [uFeature, uMain] uFeature (Inl (External ''no merge base'')))
   \<and> newCalls (init ()) (snd (snd (scanSecrets
              (collab (Inr True) (Inl (External ''no merge base'')) (\<lambda>p. Inr [''leak'']))
              repo0 (push [uFeature, uMain]) \<lparr>Messages = [''hello''], Error = None\<rparr> (init ()))))
     = [] @ FallbackCall [uFeature, uMain] uFeature (Inl (External ''no merge base'')) # []
   \<and> fst (scanSecrets (collab (Inr True) (Inl (External ''no merge base'')) (\<lambda>p. Inr [''leak'']))
              repo0 (push [uFeature, uMain]) \<lparr>Messages = [''hello''], Error = None\<rparr> (init ()))
     = Some (ErrorfW ''failed to scan for git leaks: ''
              (ErrorfW ''failed to get fallback sha: '' (External ''no merge base'')))
   \<and> fst (snd (scanSecrets (collab (Inr True) (Inl (External ''no merge base'')) (\<lambda>p. Inr [''leak'']))
              repo0 (push [uFeature, uMain]) \<lparr>Messages = [''hello''], Error = None\<rparr> (init ())))
     = \<lparr>Messages = [''hello''], Error = None\<rparr>"
  using scanSecrets_failures_abort
          [where c = "collab (Inl (External ''settings store down'')) (Inr (shaD, True)) (\<lambda>p. Inr [''leak''])"
             and s = "init ()" and repo = repo0 and inp = "push [uMain, uFeature]"
             and out = "\<lparr>Messages = [''hello''], Error = None\<rparr>"]
        scanSecrets_failures_abort
          [where c = "collab (Inr True) (Inr (shaD, True)) (\<lambda>p. Inl (External ''git died''))"
             and s = "init ()" and repo = repo0 and inp = "push [uMain, uFeature]"
             and out = "\<lparr>Messages = [''hello''], Error = None\<rparr>"]
        scanSecrets_failures_abort
          [where c = "collab (Inr True) (Inl (External ''no merge base'')) (\<lambda>p. Inr [''leak''])"
             and s = "init ()" and repo = repo0 and inp = "push [uFeature, uMain]"
             and out = "\<lparr>Messages = [''hello''], Error = None\<rparr>"]
  by (simp add: scanSecrets_def newCalls_def ex_defs)

text \<open>
  C9. \<open>scanSecrets\<close> hands back an output different from the one it was given only when
  scanning is enabled, the scan returns without error (no call failed) and with at least
  one finding, and no error is returned; in every other outcome the output is unchanged.
\<close>

theorem scanSecrets_output_frame:
  "case scanSecrets c repo inp out s of
     (err, out', s') \<Rightarrow>
       out' \<noteq> out \<longrightarrow>
         err = None
         \<and> fst (RepoGet c (world s) (ID repo)) = Inr True
         \<and> (\<exists>r. fst (scanSecretsInternal c repo inp
                        (s\<lparr>world := snd (RepoGet c (world s) (ID repo))\<rparr>)) = Inr r
                \<and> findings r \<noteq> [])
         \<and> (\<forall>ev\<in>set (newCalls s s'). \<not> callFailed ev)"
proof -
  have nofail: "\<forall>ev\<in>set (newCalls s (snd (snd (scanSecrets c repo inp out s)))). \<not> callFailed ev"
    if "fst (snd (scanSecrets c repo inp out s)) \<noteq> out"
    using scanSecrets_failed_calls [where c = c and repo = repo and inp = inp and out = out and s = s] that
    by (auto split: prod.splits)
  obtain st w1 where rg: "RepoGet c (world s) (ID repo) = (st, w1)"
    by (cases "RepoGet c (world s) (ID repo)")
  obtain r s2 where si: "scanSecretsInternal c repo inp (s\<lparr>world := w1\<rparr>) = (r, s2)"
    by (cases "scanSecretsInternal c repo inp (s\<lparr>world := w1\<rparr>)")
  have rest: "fst (scanSecrets c repo inp out s) = None
         \<and> fst (RepoGet c (world s) (ID repo)) = Inr True
         \<and> (\<exists>r. fst (scanSecretsInternal c repo inp
                        (s\<lparr>world := snd (RepoGet c (world s) (ID repo))\<rparr>)) = Inr r
                \<and> findings r \<noteq> [])"
    if "fst (snd (scanSecrets c repo inp out s)) \<noteq> out"
    using that rg si
    by (auto simp: scanSecrets_def HasResults_def Let_def split: sum.splits if_splits)
  from nofail rest show ?thesis
    by (auto split: prod.splits)
qed

theorem scanSecrets_output_frame_witness:
  "fst (snd (scanSecrets (collab (Inr True) (Inr (shaD, True)) (\<lambda>p. Inr [''leak''])) repo0
        (push [uMain]) \<lparr>Messages = [''hello''], Error = None\<rparr> (init ())))
     \<noteq> \<lparr>Messages = [''hello''], Error = None\<rparr>
   \<and> fst (scanSecrets (collab (Inr True) (Inr (shaD, True)) (\<lambda>p. Inr [''leak''])) repo0
        (push [uMain]) \<lparr>Messages = [''hello''], Error = None\<rparr> (init ())) = None
   \<and> fst (RepoGet (collab (Inr True) (Inr (shaD, True)) (\<lambda>p. Inr [''leak'']))
          (world (init ())) (ID repo0)) = Inr True
   \<and> fst (scanSecretsInternal (collab (Inr True) (Inr (shaD, True)) (\<lambda>p. Inr [''leak''])) repo0
        (push [uMain]) (init ())) = Inr \<lparr>findings = [''leak'']\<rparr>
   \<and> newCalls (init ()) (snd (snd (scanSecrets (collab (Inr True) (Inr (shaD, True)) (\<lambda>p. Inr [''leak'']))
        repo0 (push [uMain]) \<lparr>Messages = [''hello''], Error = None\<rparr> (init ()))))
     = [ScanCall uMain (scanParams (String shaA @ ''^{commit}'') (String shaB @ ''^{commit}''))
          (Inr [''leak''])]
   \<and> \<not> callFailed (ScanCall uMain
          (scanParams (String shaA @ ''^{commit}'') (String shaB @ ''^{commit}'')) (Inr [''leak'']))
   \<and> scanSecrets (collab (Inr True) (Inr (shaD, True)) (\<lambda>p. Inr [])) repo0
        (push [uMain]) \<lparr>Messages = [''hello''], Error = None\<rparr> (init ())
     = (None, \<lparr>Messages = [''hello''], Error = None\<rparr>,
        \<lparr>world = (), calls = [ScanCall uMain
           (scanParams (String shaA @ ''^{commit}'') (String shaB @ ''^{commit}'')) (Inr [])]\<rparr>)"
  using scanSecrets_output_frame
          [where c = "collab (Inr True) (Inr (shaD, True)) (\<lambda>p. Inr [''leak''])"
             and s = "init ()" and repo = repo0 and inp = "push [uMain]"
             and out = "\<lparr>Messages = [''hello''], Error = None\<rparr>"]
  by (simp add: scanSecrets_def newCalls_def HasResults_def ex_defs)

section \<open>Reading to the end, and closing\<close>

lemma GetBlob_Inr:
  assumes "GetBlob pge b sha sizeLimit p = (Inr br, p')"
  shows "write_err b = None \<and> header b = Inr (sha, GitObjectTypeBlob, Size br)
         \<and> SHA br = sha
         \<and> ContentSize br = (if sizeLimit > 0 \<and> sizeLimit < Size br then sizeLimit else Size br)
         \<and> Content br = newLimitReaderCloser (body b) (ContentSize br) cancel
         \<and> p' = p"
  using assms
  by (auto simp: GetBlob_def Let_def split: option.splits sum.splits prod.splits if_splits)

lemma Read_stop: "stop (snd (Read l k)) = stop l"
  by (simp add: Read_def split: prod.splits)

lemma reads_stop: "stop (reads ks l) = stop l"
  by (induction ks arbitrary: l) (simp_all add: Read_stop)

lemma Read_cases:
  "Read l k =
     (if lr_N (reader l) \<le> 0 \<or> lr_R (reader l) = [] then (([], True), 
         if lr_N (reader l) \<le> 0 then l else l\<lparr>reader := \<lparr>lr_R = [], lr_N = lr_N (reader l)\<rparr>\<rparr>)
      else ((take (min k (nat (lr_N (reader l)))) (lr_R (reader l)), False),
            l\<lparr>reader := \<lparr>lr_R = drop (min k (nat (lr_N (reader l)))) (lr_R (reader l)),
                           lr_N = lr_N (reader l)
                                  - int (length (take (min k (nat (lr_N (reader l)))) (lr_R (reader l))))\<rparr>\<rparr>))"
  by (auto simp: Read_def LimitedReader_Read_def stream_Read_def Let_def min_def)

lemma take_split:
  "m \<le> n \<Longrightarrow> take m xs @ take (n - length (take m xs)) (drop m xs) = take n xs"
proof (cases "m \<le> length xs")
  case True
  assume "m \<le> n"
  then have "take n xs = take (m + (n - m)) xs" by simp
  also have "\<dots> = take m xs @ take (n - m) (drop m xs)" by (rule take_add)
  finally show ?thesis using True by simp
next
  case False
  assume "m \<le> n"
  with False show ?thesis by simp
qed

lemma ReadAll_take:
  "0 < k \<Longrightarrow> ReadAll k l = take (nat (lr_N (reader l))) (lr_R (reader l))"
proof (induction k l rule: ReadAll.induct)
  case (1 k l)
  let ?n = "lr_N (reader l)" and ?bs = "lr_R (reader l)"
  show ?case
  proof (cases "?n \<le> 0 \<or> ?bs = []")
    case True
    then show ?thesis
      by (subst ReadAll.simps) (auto simp: Read_cases)
  next
    case False
    let ?m = "min k (nat ?n)"
    let ?l' = "l\<lparr>reader := \<lparr>lr_R = drop ?m ?bs, lr_N = ?n - int (length (take ?m ?bs))\<rparr>\<rparr>"
    have rd: "Read l k = ((take ?m ?bs, False), ?l')"
      using False by (simp add: Read_cases)
    have ne: "take ?m ?bs \<noteq> []"
      using False 1(2) by auto
    from 1(1) [OF rd [symmetric] refl _ 1(2)] ne
    have ih: "ReadAll k ?l' = take (nat (lr_N (reader ?l'))) (lr_R (reader ?l'))"
      by simp
    have mpos: "0 < ?m"
      using False 1(2) by simp
    have step: "ReadAll k l = take ?m ?bs @ ReadAll k ?l'"
      using ne by (subst ReadAll.simps) (simp only: rd prod.case simp_thms if_False)
    have "nat (?n - int (length (take ?m ?bs))) = nat ?n - length (take ?m ?bs)"
      by simp
    then have "take ?m ?bs @ take (nat (?n - int (length (take ?m ?bs)))) (drop ?m ?bs)
            = take (nat ?n) ?bs"
      using take_split [of ?m "nat ?n" ?bs] by simp
    with step ih show ?thesis by simp
  qed
qed

lemmas blob_defs = GetBlob_def helloBatch_def strayBatch_def treeBatch_def brokenPipeBatch_def
  noHeaderBatch_def wrapGitError_def blobSHA_def treeSHA_def GitObjectTypeBlob_def quoted_def
  newLimitReaderCloser_def cancel_def Close_def Read_def LimitedReader_Read_def stream_Read_def

section \<open>Claims about reading a blob\<close>

text \<open>
  C4, as amended. For every successful \<open>GetBlob\<close> call, \<open>Size\<close> is the size declared in
  the header, \<open>ContentSize\<close> is the smaller of \<open>Size\<close> and the limit when the limit is
  positive and \<open>Size\<close> otherwise, and reading \<open>Content\<close> to its end yields the first
  \<open>ContentSize\<close> bytes the backend sends after the header, never more. These are exactly
  \<open>ContentSize\<close> bytes if and only if \<open>ContentSize\<close> is not negative and the backend
  sends at least that many bytes; so they are whenever the declared size is not negative
  and the backend sends the declared number of bytes.
\<close>

theorem GetBlob_content_size:
  assumes "GetBlob pge b sha sizeLimit p = (Inr br, p')"
  shows "header b = Inr (sha, GitObjectTypeBlob, Size br)
       \<and> ContentSize br = (if sizeLimit > 0 then min (Size br) sizeLimit else Size br)
       \<and> (\<forall>k>0. ReadAll k (Content br) = take (nat (ContentSize br)) (body b))
       \<and> (0 \<le> Size br \<and> Size br \<le> int (length (body b)) \<longrightarrow>
            (\<forall>k>0. int (length (ReadAll k (Content br))) = ContentSize br))
       \<and> (\<forall>k>0. (int (length (ReadAll k (Content br))) = ContentSize br)
                  = (0 \<le> ContentSize br \<and> ContentSize br \<le> int (length (body b))))"
proof -
  note g = GetBlob_Inr [OF assms]
  from g have cs: "ContentSize br = (if sizeLimit > 0 then min (Size br) sizeLimit else Size br)"
    by (auto simp: min_def)
  have rd: "ReadAll k (Content br) = take (nat (ContentSize br)) (body b)" if "0 < k" for k
    using ReadAll_take [OF that, of "Content br"] g
    by (simp add: newLimitReaderCloser_def)
  have len: "int (length (take (nat (ContentSize br)) (body b))) = ContentSize br"
    if "0 \<le> Size br" "Size br \<le> int (length (body b))"
    using that cs by (auto simp: min_def)
  have exact: "(int (length (take (nat (ContentSize br)) (body b))) = ContentSize br)
                 = (0 \<le> ContentSize br \<and> ContentSize br \<le> int (length (body b)))"
    by (auto simp: min_def)
  from g cs rd len exact show ?thesis by auto
qed

theorem GetBlob_content_size_witness:
  "GetBlob wrapGitError helloBatch blobSHA 3 \<lparr>cancel_calls = 0\<rparr>
     = (Inr \<lparr>SHA = blobSHA, Size = 5, ContentSize = 3,
              Content = newLimitReaderCloser [104, 101, 108, 108, 111, 10] 3 cancel\<rparr>,
        \<lparr>cancel_calls = 0\<rparr>)
   \<and> (0::int) \<le> 5 \<and> (5::int) \<le> int (length (body helloBatch)) \<and> (0::nat) < 2
   \<and> ReadAll 2 (newLimitReaderCloser [104, 101, 108, 108, 111, 10] 3 cancel) = [104, 101, 108]
   \<and> fst (GetBlob wrapGitError helloBatch blobSHA 0 \<lparr>cancel_calls = 0\<rparr>)
     = Inr \<lparr>SHA = blobSHA, Size = 5, ContentSize = 5,
             Content = newLimitReaderCloser [104, 101, 108, 108, 111, 10] 5 cancel\<rparr>
   \<and> ReadAll 4 (newLimitReaderCloser [104, 101, 108, 108, 111, 10] 5 cancel)
     = [104, 101, 108, 108, 111]"
proof -
  have a: "GetBlob wrapGitError helloBatch blobSHA 3 \<lparr>cancel_calls = 0\<rparr>
     = (Inr \<lparr>SHA = blobSHA, Size = 5, ContentSize = 3,
              Content = newLimitReaderCloser [104, 101, 108, 108, 111, 10] 3 cancel\<rparr>,
        \<lparr>cancel_calls = 0\<rparr>)"
    by (simp add: GetBlob_def helloBatch_def blobSHA_def GitObjectTypeBlob_def)
  have b: "GetBlob wrapGitError helloBatch blobSHA 0 \<lparr>cancel_calls = 0\<rparr>
     = (Inr \<lparr>SHA = blobSHA, Size = 5, ContentSize = 5,
              Content = newLimitReaderCloser [104, 101, 108, 108, 111, 10] 5 cancel\<rparr>,
        \<lparr>cancel_calls = 0\<rparr>)"
    by (simp add: GetBlob_def helloBatch_def blobSHA_def GitObjectTypeBlob_def)
  from GetBlob_content_size [OF a] GetBlob_content_size [OF b] a b
  show ?thesis
    by (simp add: helloBatch_def)
qed

text \<open>
  C4 as stated fails: when the backend announces five bytes and its stream ends after
  two, \<open>GetBlob\<close> succeeds with \<open>ContentSize\<close> five and the stream yields two bytes.
\<close>

theorem GetBlob_short_stream_counterexample:
  "GetBlob wrapGitError shortBatch blobSHA 0 \<lparr>cancel_calls = 0\<rparr>
     = (Inr \<lparr>SHA = blobSHA, Size = 5, ContentSize = 5,
              Content = newLimitReaderCloser [104, 101] 5 cancel\<rparr>,
        \<lparr>cancel_calls = 0\<rparr>)
   \<and> ReadAll 4 (newLimitReaderCloser [104, 101] 5 cancel) = [104, 101]
   \<and> int (length (ReadAll 4 (newLimitReaderCloser [104, 101] 5 cancel))) \<noteq> 5"
  by (simp add: GetBlob_def shortBatch_def blobSHA_def GitObjectTypeBlob_def ReadAll_take
                newLimitReaderCloser_def)

text \<open>
  C8. With the request written and the header read, \<open>GetBlob\<close> fails with the protocol
  mismatch error exactly when the id in the header differs from the requested id, and,
  at the next step, with the unexpected object type error exactly when the id is the
  requested one and the type in the header is not blob. A failed write fails with a
  transport error that wraps the cause, and a header that cannot be read fails with what
  \<^verbatim>\<open>processGitErrorf\<close> makes of the cause. A caller tells the kinds apart by testing the
  returned error: the kind it reads off the result of \<open>GetBlob\<close> is the protocol mismatch
  only for a differing id, the unexpected object type only for a wrong type, and a
  transport failure for neither; with \<^verbatim>\<open>processGitErrorf\<close> as the spec describes it, the
  kind is a transport failure exactly when the write or the reading of the header failed.
\<close>

theorem GetBlob_failure_kinds:
  "(write_err b = None \<and> header b = Inr (objectSHA, objectType, objectSize) \<longrightarrow>
      (objectSHA \<noteq> sha \<longrightarrow>
         GetBlob pge b sha sizeLimit p =
           (Inl (Errorf (''cat-file returned object sha '' @ quoted objectSHA
                           @ '' but expected '' @ quoted sha)), cancel p))
    \<and> (objectSHA = sha \<and> objectType \<noteq> GitObjectTypeBlob \<longrightarrow>
         GetBlob pge b sha sizeLimit p =
           (Inl (InvalidArgument (''cat-file returned object type '' @ quoted objectType
                           @ '' but expected '' @ quoted GitObjectTypeBlob)), cancel p))
    \<and> ((resultKind (fst (GetBlob pge b sha sizeLimit p)) = Some ProtocolMismatch)
          = (objectSHA \<noteq> sha))
    \<and> ((resultKind (fst (GetBlob pge b sha sizeLimit p)) = Some UnexpectedObjectType)
          = (objectSHA = sha \<and> objectType \<noteq> GitObjectTypeBlob))
    \<and> resultKind (fst (GetBlob pge b sha sizeLimit p)) \<noteq> Some TransportFailure
    \<and> ((resultKind (fst (GetBlob pge b sha sizeLimit p)) = None)
          = (objectSHA = sha \<and> objectType = GitObjectTypeBlob)))
   \<and> (\<forall>cause. write_err b = Some cause \<longrightarrow>
         GetBlob pge b sha sizeLimit p =
           (Inl (ErrorfW ''failed to write blob sha to git stdin: '' cause), cancel p)
         \<and> resultKind (fst (GetBlob pge b sha sizeLimit p)) = Some TransportFailure)
   \<and> (\<forall>cause. write_err b = None \<and> header b = Inl cause \<longrightarrow>
         GetBlob pge b sha sizeLimit p =
           (Inl (pge cause ''failed to read cat-file batch line''), cancel p)
         \<and> resultKind (fst (GetBlob pge b sha sizeLimit p))
             = kindOf (pge cause ''failed to read cat-file batch line''))
   \<and> ((resultKind (fst (GetBlob wrapGitError b sha sizeLimit p)) = Some TransportFailure)
         = (write_err b \<noteq> None \<or> isl (header b)))"
  by (auto simp: GetBlob_def resultKind_def wrapGitError_def Let_def
           split: option.splits sum.splits)

theorem GetBlob_failure_kinds_witness:
  "write_err strayBatch = None \<and> header strayBatch = Inr (treeSHA, ''blob'', 0)
   \<and> treeSHA \<noteq> blobSHA
   \<and> GetBlob wrapGitError strayBatch blobSHA 0 \<lparr>cancel_calls = 0\<rparr>
     = (Inl (Errorf (''cat-file returned object sha '' @ quoted treeSHA
                              @ '' but expected '' @ quoted blobSHA)), \<lparr>cancel_calls = 1\<rparr>)
   \<and> resultKind (fst (GetBlob wrapGitError strayBatch blobSHA 0 \<lparr>cancel_calls = 0\<rparr>))
     = Some ProtocolMismatch
   \<and> write_err treeBatch = None \<and> header treeBatch = Inr (treeSHA, ''tree'', 0)
   \<and> ''tree'' \<noteq> GitObjectTypeBlob
   \<and> GetBlob wrapGitError treeBatch treeSHA 0 \<lparr>cancel_calls = 0\<rparr>
     = (Inl (InvalidArgument (''cat-file returned object type '' @ quoted ''tree''
                              @ '' but expected '' @ quoted GitObjectTypeBlob)), \<lparr>cancel_calls = 1\<rparr>)
   \<and> resultKind (fst (GetBlob wrapGitError treeBatch treeSHA 0 \<lparr>cancel_calls = 0\<rparr>))
     = Some UnexpectedObjectType
   \<and> write_err brokenPipeBatch = Some (External ''broken pipe'')
   \<and> GetBlob wrapGitError brokenPipeBatch blobSHA 0 \<lparr>cancel_calls = 0\<rparr>
     = (Inl (ErrorfW ''failed to write blob sha to git stdin: '' (External ''broken pipe'')),
        \<lparr>cancel_calls = 1\<rparr>)
   \<and> resultKind (fst (GetBlob wrapGitError brokenPipeBatch blobSHA 0 \<lparr>cancel_calls = 0\<rparr>))
     = Some TransportFailure
   \<and> write_err noHeaderBatch = None \<and> header noHeaderBatch = Inl (External ''EOF'')
   \<and> GetBlob wrapGitError noHeaderBatch blobSHA 0 \<lparr>cancel_calls = 0\<rparr>
     = (Inl (wrapGitError (External ''EOF'') ''failed to read cat-file batch line''),
        \<lparr>cancel_calls = 1\<rparr>)
   \<and> resultKind (fst (GetBlob wrapGitError noHeaderBatch blobSHA 0 \<lparr>cancel_calls = 0\<rparr>))
     = Some TransportFailure
   \<and> write_err helloBatch = None \<and> header helloBatch = Inr (blobSHA, ''blob'', 5)
   \<and> resultKind (fst (GetBlob wrapGitError helloBatch blobSHA 0 \<lparr>cancel_calls = 0\<rparr>)) = None"
  using GetBlob_failure_kinds
          [where b = strayBatch and objectSHA = treeSHA and objectType = "''blob''"
             and objectSize = 0 and sha = blobSHA and pge = wrapGitError and sizeLimit = 0
             and p = "\<lparr>cancel_calls = 0\<rparr>"]
        GetBlob_failure_kinds
          [where b = treeBatch and objectSHA = treeSHA and objectType = "''tree''"
             and objectSize = 0 and sha = treeSHA and pge = wrapGitError and sizeLimit = 0
             and p = "\<lparr>cancel_calls = 0\<rparr>"]
        GetBlob_failure_kinds
          [where b = brokenPipeBatch and sha = blobSHA and pge = wrapGitError and sizeLimit = 0
             and p = "\<lparr>cancel_calls = 0\<rparr>"]
        GetBlob_failure_kinds
          [where b = noHeaderBatch and sha = blobSHA and pge = wrapGitError and sizeLimit = 0
             and p = "\<lparr>cancel_calls = 0\<rparr>"]
        GetBlob_failure_kinds
          [where b = helloBatch and objectSHA = blobSHA and objectType = "''blob''"
             and objectSize = 5 and sha = blobSHA and pge = wrapGitError and sizeLimit = 0
             and p = "\<lparr>cancel_calls = 0\<rparr>"]
  by (simp add: blob_defs resultKind_def)

text \<open>
  C10. Every error return of \<open>GetBlob\<close> has invoked \<open>cancel\<close> once; a successful
  return has not, and \<open>Close\<close> on the returned stream, after reads with buffers of any
  sizes (none, some or all of the bytes consumed), invokes \<open>cancel\<close> and returns nil.
\<close>

theorem GetBlob_releases_backend:
  "case GetBlob pge b sha sizeLimit p of
     (Inl err, p') \<Rightarrow> p' = cancel p \<and> cancel_calls p' = Suc (cancel_calls p)
   | (Inr br, p') \<Rightarrow>
       p' = p \<and>
       (\<forall>ks q. Close (reads ks (Content br)) q = (None, cancel q)
              \<and> cancel_calls (cancel q) = Suc (cancel_calls q))"
proof -
  obtain r p' where g: "GetBlob pge b sha sizeLimit p = (r, p')"
    by (cases "GetBlob pge b sha sizeLimit p")
  show ?thesis
  proof (cases r)
    case (Inl err)
    with g have "p' = cancel p"
      by (auto simp: GetBlob_def Let_def split: option.splits sum.splits prod.splits if_splits)
    with g Inl show ?thesis by (simp add: cancel_def)
  next
    case (Inr br)
    from GetBlob_Inr [OF g [unfolded Inr]]
    have "p' = p" and "stop (Content br) = cancel"
      by (simp_all add: newLimitReaderCloser_def)
    with g Inr show ?thesis
      by (simp add: Close_def reads_stop cancel_def)
  qed
qed

theorem GetBlob_releases_backend_witness:
  "GetBlob wrapGitError noHeaderBatch blobSHA 3 \<lparr>cancel_calls = 0\<rparr>
     = (Inl (ErrorfW ''failed to read cat-file batch line: '' (External ''EOF'')),
        \<lparr>cancel_calls = 1\<rparr>)
   \<and> GetBlob wrapGitError helloBatch blobSHA 3 \<lparr>cancel_calls = 0\<rparr>
     = (Inr \<lparr>SHA = blobSHA, Size = 5, ContentSize = 3,
              Content = newLimitReaderCloser [104, 101, 108, 108, 111, 10] 3 cancel\<rparr>,
        \<lparr>cancel_calls = 0\<rparr>)
   \<and> fst (Read (newLimitReaderCloser [104, 101, 108, 108, 111, 10] 3 cancel) 2)
     = ([104, 101], False)
   \<and> Close (reads [2] (newLimitReaderCloser [104, 101, 108, 108, 111, 10] 3 cancel))
        \<lparr>cancel_calls = 0\<rparr>
     = (None, \<lparr>cancel_calls = 1\<rparr>)
   \<and> Close (reads [] (newLimitReaderCloser [104, 101, 108, 108, 111, 10] 3 cancel))
        \<lparr>cancel_calls = 0\<rparr>
     = (None, \<lparr>cancel_calls = 1\<rparr>)"
  using GetBlob_releases_backend
          [where pge = wrapGitError and b = noHeaderBatch and sha = blobSHA and sizeLimit = 3
             and p = "\<lparr>cancel_calls = 0\<rparr>"]
        GetBlob_releases_backend
          [where pge = wrapGitError and b = helloBatch and sha = blobSHA and sizeLimit = 3
             and p = "\<lparr>cancel_calls = 0\<rparr>"]
  by (simp add: blob_defs)

end
